theory Spec2Isabelle
  imports Complex_Main "HOL-Library.Multiset"
begin

section \<open>The queue store of \<^verbatim>\<open>QueueHandler\<close>\<close>

text \<open>
  \<^verbatim>\<open>QueueHandler\<close> keeps \<^verbatim>\<open>queues: Map<string, QueuedSong[]>\<close>. A JavaScript array is
  an object: the map holds references, and two holders of one reference see each other's
  writes. The model therefore keeps the arrays in a store of their own:
  \<^item> \<open>queues\<close> maps a guild id to the address of its array (\<open>None\<close>: no entry);
  \<^item> \<open>heap\<close> gives the elements of the array at an address;
  \<^item> \<open>nxt\<close> is the address the next array literal (\<^verbatim>\<open>[]\<close>, \<^verbatim>\<open>[currentSong]\<close>, ...) gets;
  \<^item> \<open>emitted\<close> is the log of \<^verbatim>\<open>this.emit('queueUpdate', guild)\<close> calls, oldest first;
  \<^item> \<open>memberFetches\<close>, \<open>playbackStarts\<close> and \<open>errorsLogged\<close> are the logs of the calls to
    \<^verbatim>\<open>guild.members.fetch\<close>, \<^verbatim>\<open>playbackHandler.startPlayback\<close> and \<^verbatim>\<open>console.error\<close>.
  A guild is represented by its \<^verbatim>\<open>id\<close>, the only part of it the handler reads. Listeners of
  \<^verbatim>\<open>queueUpdate\<close> and the playback handler are outside the class; the model records the calls
  and assumes they neither throw into nor re-enter the handler.
\<close>

type_synonym guild_id = string
type_synonym addr = nat

record requester =
  id_req :: string
  username :: string

record 'song QueuedSong =
  song :: 'song
  requestedBy :: requester

record 'a QueueHandler =
  queues :: "guild_id \<rightharpoonup> addr"
  heap :: "addr \<Rightarrow> 'a list"
  nxt :: addr
  emitted :: "guild_id list"
  memberFetches :: "(guild_id \<times> string) list"
  playbackStarts :: "(guild_id \<times> string) list"
  errorsLogged :: nat

text \<open>The constructor: an empty map, nothing allocated, nothing emitted.\<close>

definition new_QueueHandler :: "'a QueueHandler" where
  "new_QueueHandler =
     \<lparr>queues = Map.empty, heap = (\<lambda>_. []), nxt = 0, emitted = [],
      memberFetches = [], playbackStarts = [], errorsLogged = 0\<rparr>"

text \<open>An array literal with elements \<open>xs\<close>: a fresh address, returned with the new state.\<close>

definition alloc :: "'a list \<Rightarrow> 'a QueueHandler \<Rightarrow> addr \<times> 'a QueueHandler" where
  "alloc xs s = (nxt s, s\<lparr>heap := (heap s)(nxt s := xs), nxt := Suc (nxt s)\<rparr>)"

text \<open>\<^verbatim>\<open>this.queues.set(guild.id, <array literal>)\<close>.\<close>

definition set_queue :: "guild_id \<Rightarrow> 'a list \<Rightarrow> 'a QueueHandler \<Rightarrow> 'a QueueHandler" where
  "set_queue g xs s = (case alloc xs s of (a, s1) \<Rightarrow> s1\<lparr>queues := (queues s1)(g \<mapsto> a)\<rparr>)"

text \<open>\<^verbatim>\<open>this.emit('queueUpdate', guild)\<close>.\<close>

definition emit :: "guild_id \<Rightarrow> 'a QueueHandler \<Rightarrow> 'a QueueHandler" where
  "emit g s = s\<lparr>emitted := emitted s @ [g]\<rparr>"

text \<open>In-place writes to the array at an address: \<^verbatim>\<open>push\<close>, and the general store.\<close>

definition array_store :: "addr \<Rightarrow> 'a list \<Rightarrow> 'a QueueHandler \<Rightarrow> 'a QueueHandler" where
  "array_store a xs s = s\<lparr>heap := (heap s)(a := xs)\<rparr>"

definition array_push :: "addr \<Rightarrow> 'a \<Rightarrow> 'a QueueHandler \<Rightarrow> 'a QueueHandler" where
  "array_push a x s = array_store a (heap s a @ [x]) s"

text \<open>The elements of a guild's queue, \<open>None\<close> when the map has no entry for the guild.\<close>

definition queue_of :: "'a QueueHandler \<Rightarrow> guild_id \<Rightarrow> 'a list option" where
  "queue_of s g = map_option (heap s) (queues s g)"

text \<open>
  \<^verbatim>\<open>Array.prototype.splice(start, deleteCount, ...items)\<close> on integer arguments, as
  ECMAScript defines it: a negative start counts from the end, both arguments are clamped
  to the array. The result is the array of removed elements and the array afterwards.
\<close>

definition splice_array :: "'a list \<Rightarrow> int \<Rightarrow> int \<Rightarrow> 'a list \<Rightarrow> 'a list \<times> 'a list" where
  "splice_array xs start deleteCount items =
     (let len = int (length xs);
          actualStart = (if start < 0 then max (len + start) 0 else min start len);
          actualDeleteCount = min (max deleteCount 0) (len - actualStart)
      in (take (nat actualDeleteCount) (drop (nat actualStart) xs),
          take (nat actualStart) xs @ items @ drop (nat (actualStart + actualDeleteCount)) xs))"

subsection \<open>The operations\<close>

definition clearQueue :: "'a QueueHandler \<Rightarrow> guild_id \<Rightarrow> 'a QueueHandler" where
  "clearQueue s g = emit g (set_queue g [] s)"

definition getCurrentQueueItem :: "'a QueueHandler \<Rightarrow> guild_id \<Rightarrow> 'a option" where
  "getCurrentQueueItem s g =
     (case queues s g of
        None \<Rightarrow> None
      | Some a \<Rightarrow> (let queue = heap s a in if length queue = 0 then None else Some (queue ! 0)))"

text \<open>\<^verbatim>\<open>queue.shift()\<close> removes the first element of the array in place.\<close>

definition getNextQueueItem :: "'a QueueHandler \<Rightarrow> guild_id \<Rightarrow> 'a option \<times> 'a QueueHandler" where
  "getNextQueueItem s g =
     (case queues s g of
        None \<Rightarrow> (None, s)
      | Some a \<Rightarrow>
          (let queue = heap s a in
           if length queue = 0 then (None, s)
           else (let s1 = array_store a (tl queue) s;
                     s2 = emit g s1;
                     queue' = heap s2 a
                 in (if length queue' > 0 then Some (queue' ! 0) else None, s2))))"

definition clearQueueExceptCurrent :: "'a QueueHandler \<Rightarrow> guild_id \<Rightarrow> 'a QueueHandler" where
  "clearQueueExceptCurrent s g =
     (case queues s g of
        None \<Rightarrow> s
      | Some a \<Rightarrow>
          (let queue = heap s a in
           if length queue = 0 then s
           else (let currentSong = queue ! 0
                 in emit g (set_queue g [currentSong] s))))"

text \<open>
  The loop of \<^verbatim>\<open>shuffleQueue\<close>:
  \<^verbatim>\<open>for (let i = remainingSongs.length - 1; i > 0; i--) {
    const j = Math.floor(Math.random() * (i + 1));
    [remainingSongs[i], remainingSongs[j]] = [remainingSongs[j], remainingSongs[i]]; }\<close>
  The numbers are IEEE 754 doubles. \<^verbatim>\<open>Math.random()\<close> returns a double that is at least 0
  and less than 1: such a double is \<open>m / 2 ^ k\<close> for natural numbers \<open>m < 2 ^ 53\<close> and
  \<open>k \<le> 1074\<close> with \<open>m < 2 ^ k\<close>, and every such quotient is one (a normal double below 1
  has 53 significant bits and an exponent from -1022 to -1, a subnormal one is a multiple
  of \<open>2 ^ - 1074\<close>). \<open>Double m k\<close> is that value and \<open>is_random_value\<close> the condition.
\<close>

datatype double = Double (significand: nat) (scale: nat)

definition double_value :: "double \<Rightarrow> real" where
  "double_value r = real (significand r) / 2 ^ scale r"

definition is_random_value :: "double \<Rightarrow> bool" where
  "is_random_value r \<longleftrightarrow>
     significand r < 2 ^ 53 \<and> scale r \<le> 1074 \<and> significand r < 2 ^ scale r"

text \<open>
  The product \<^verbatim>\<open>Math.random() * (i + 1)\<close> is the double nearest to the exact product
  \<open>m * (i + 1) / 2 ^ k\<close>, the one with an even significand when two are equally near.
  \<open>i + 1\<close> is exact, an array index being far below \<open>2 ^ 53\<close>. A numerator of at most 53
  bits is a double as it is (with \<open>k \<le> 1074\<close>); a longer one is rounded to its leading 53
  bits, and is then at least \<open>2 ^ 53 / 2 ^ 1074\<close>, in the normal range, where 53 bits are the
  precision. \<open>round_to_double n\<close> is the numerator after rounding and \<open>bit_length n\<close> the
  number of bits of \<open>n\<close>. \<^verbatim>\<open>Math.floor\<close> of the quotient is the integer division.
\<close>

fun bit_length :: "nat \<Rightarrow> nat" where
  "bit_length n = (if n = 0 then 0 else Suc (bit_length (n div 2)))"

declare bit_length.simps [simp del]

definition round_to_precision :: "nat \<Rightarrow> nat \<Rightarrow> nat" where
  "round_to_precision p n =
     (if bit_length n \<le> p then n
      else (let s = bit_length n - p;
                q = n div 2 ^ s;
                rest = n mod 2 ^ s;
                half = 2 ^ (s - 1)
            in (if rest > half \<or> (rest = half \<and> odd q) then q + 1 else q) * 2 ^ s))"

definition round_to_double :: "nat \<Rightarrow> nat" where
  "round_to_double n = round_to_precision 53 n"

text \<open>
  \<open>rnd k\<close> is the value the \<open>k\<close>-th call of \<^verbatim>\<open>Math.random()\<close> returns, \<open>k\<close> counts the calls
  made so far; \<open>random_index r i\<close> is the \<open>j\<close> of the loop at index \<open>i\<close> when the call
  returns \<open>r\<close>.
\<close>

definition random_index :: "double \<Rightarrow> nat \<Rightarrow> nat" where
  "random_index r i = round_to_double (significand r * (i + 1)) div 2 ^ scale r"

definition swap :: "nat \<Rightarrow> nat \<Rightarrow> 'a list \<Rightarrow> 'a list" where
  "swap i j xs = xs[i := xs ! j, j := xs ! i]"

fun shuffle_loop :: "(nat \<Rightarrow> double) \<Rightarrow> nat \<Rightarrow> nat \<Rightarrow> 'a list \<Rightarrow> 'a list" where
  "shuffle_loop rnd k i remainingSongs =
     (if i > 0
      then (let j = random_index (rnd k) i
            in shuffle_loop rnd (Suc k) (i - 1) (swap i j remainingSongs))
      else remainingSongs)"

declare shuffle_loop.simps [simp del]

definition shuffleQueue :: "'a QueueHandler \<Rightarrow> guild_id \<Rightarrow> (nat \<Rightarrow> double) \<Rightarrow> 'a QueueHandler" where
  "shuffleQueue s g rnd =
     (case queues s g of
        None \<Rightarrow> s
      | Some a \<Rightarrow>
          (let queue = heap s a in
           if length queue \<le> 1 then s
           else (let currentSong = queue ! 0;
                     remainingSongs = drop 1 queue;
                     remainingSongs' = shuffle_loop rnd 0 (length remainingSongs - 1) remainingSongs
                 in emit g (set_queue g (currentSong # remainingSongs') s))))"

text \<open>
  \<^verbatim>\<open>moveSong\<close> and \<^verbatim>\<open>removeSong\<close> take JavaScript numbers; the model takes integers.
  \<^verbatim>\<open>const [song] = queue.splice(fromIndex, 1)\<close> binds the first removed element. After the
  index checks exactly one element is removed (lemma \<open>splice_one\<close> below); where nothing
  is removed JavaScript binds \<^verbatim>\<open>undefined\<close>, which \<^verbatim>\<open>removeSong\<close> returns (\<open>None\<close> here)
  and \<^verbatim>\<open>moveSong\<close> would insert: an array of \<open>'a\<close> cannot hold it, and that branch, which no
  input reaches, inserts nothing.
\<close>

definition moveSong :: "'a QueueHandler \<Rightarrow> guild_id \<Rightarrow> int \<Rightarrow> int \<Rightarrow> bool \<times> 'a QueueHandler" where
  "moveSong s g fromIndex toIndex =
     (case queues s g of
        None \<Rightarrow> (False, s)
      | Some a \<Rightarrow>
          (let queue = heap s a in
           if length queue = 0 then (False, s)
           else if fromIndex < 0 \<or> fromIndex \<ge> int (length queue) \<or>
                   toIndex < 0 \<or> toIndex \<ge> int (length queue) \<or>
                   fromIndex = toIndex then (False, s)
           else (case splice_array queue fromIndex 1 [] of
                   (removed, queue1) \<Rightarrow>
                     (let items = (case removed of [] \<Rightarrow> [] | x # _ \<Rightarrow> [x]);
                          queue2 = snd (splice_array queue1 toIndex 0 items)
                      in (True, emit g (array_store a queue2 s))))))"

definition removeSong :: "'a QueueHandler \<Rightarrow> guild_id \<Rightarrow> int \<Rightarrow> 'a option \<times> 'a QueueHandler" where
  "removeSong s g index =
     (case queues s g of
        None \<Rightarrow> (None, s)
      | Some a \<Rightarrow>
          (let queue = heap s a in
           if length queue = 0 then (None, s)
           else if index < 0 \<or> index \<ge> int (length queue) then (None, s)
           else (case splice_array queue index 1 [] of
                   (removed, queue1) \<Rightarrow>
                     (let removedSong = (case removed of [] \<Rightarrow> None | x # _ \<Rightarrow> Some x)
                      in (removedSong, emit g (array_store a queue1 s))))))"

text \<open>
  \<^verbatim>\<open>getQueue\<close> returns \<^verbatim>\<open>this.queues.get(guild.id) || []\<close>. An array is truthy, also an
  empty one, so for a guild with an entry the result is the reference the map holds; for
  a guild without one it is a new empty array.
\<close>

definition getQueue :: "'a QueueHandler \<Rightarrow> guild_id \<Rightarrow> addr \<times> 'a QueueHandler" where
  "getQueue s g = (case queues s g of Some a \<Rightarrow> (a, s) | None \<Rightarrow> alloc [] s)"

text \<open>
  \<^verbatim>\<open>addLinkToQueue\<close>. The three collaborators are outside the class, so what they answer is
  an argument of the model:
  \<^item> \<open>resolved\<close> is what \<^verbatim>\<open>await metaHandler.getSongMetadata(link)\<close> gives: \<open>Inl e\<close> when the
    promise rejects (the exception leaves \<^verbatim>\<open>addLinkToQueue\<close>), \<open>Inr result\<close> otherwise, with
    \<open>metadata result = None\<close> for \<^verbatim>\<open>null\<close>;
  \<^item> \<open>outcome\<close> says how the \<^verbatim>\<open>try\<close> block ends, if it is entered.
  The state is the one found when the function resumes after its first \<^verbatim>\<open>await\<close>; from
  there to the \<^verbatim>\<open>try\<close> block the code runs without interruption.
\<close>

datatype error = CouldNotFetchSongMetadata | ResolverRejected

record ('song, 'd) meta_result =
  metadata :: "'song option"
  downloadPromise :: 'd

datatype playback_outcome = MemberFetchFails | StartPlaybackFails | StartPlaybackOk

definition start_playback ::
  "guild_id \<Rightarrow> string \<Rightarrow> playback_outcome \<Rightarrow> 'a QueueHandler \<Rightarrow> 'a QueueHandler" where
  "start_playback g uid outcome s =
     (let s1 = s\<lparr>memberFetches := memberFetches s @ [(g, uid)]\<rparr> in
      case outcome of
        MemberFetchFails \<Rightarrow> s1\<lparr>errorsLogged := Suc (errorsLogged s1)\<rparr>
      | StartPlaybackFails \<Rightarrow>
          s1\<lparr>playbackStarts := playbackStarts s1 @ [(g, uid)], errorsLogged := Suc (errorsLogged s1)\<rparr>
      | StartPlaybackOk \<Rightarrow> s1\<lparr>playbackStarts := playbackStarts s1 @ [(g, uid)]\<rparr>)"

definition addLinkToQueue ::
  "'song QueuedSong QueueHandler \<Rightarrow> guild_id \<Rightarrow> error + ('song, 'd) meta_result \<Rightarrow> requester \<Rightarrow>
   playback_outcome \<Rightarrow> (error + ('song, 'd) meta_result) \<times> 'song QueuedSong QueueHandler" where
  "addLinkToQueue s g resolved user outcome =
     (case resolved of
        Inl e \<Rightarrow> (Inl e, s)
      | Inr result \<Rightarrow>
          (case metadata result of
             None \<Rightarrow> (Inl CouldNotFetchSongMetadata, s)
           | Some m \<Rightarrow>
               (let s1 = (if queues s g = None then set_queue g [] s else s);
                    queue = queues s1 g;
                    item = \<lparr>song = m, requestedBy = \<lparr>id_req = id_req user, username = username user\<rparr>\<rparr>;
                    s2 = (case queues s1 g of None \<Rightarrow> s1 | Some a \<Rightarrow> array_push a item s1);
                    s3 = emit g s2;
                    s4 = (case queue of
                            None \<Rightarrow> s3
                          | Some a \<Rightarrow>
                              if length (heap s3 a) \<le> 1 then start_playback g (id_req user) outcome s3
                              else s3)
                in (Inr result, s4))))"

text \<open>
  What a caller that reads the queue sees: the elements in order, and nothing for a guild
  without an entry.
\<close>

definition queue_list :: "'a QueueHandler \<Rightarrow> guild_id \<Rightarrow> 'a list" where
  "queue_list s g = (case queues s g of None \<Rightarrow> [] | Some a \<Rightarrow> heap s a)"

text \<open>
  The stores the handler can be in: every array in the map was allocated, and no two
  guilds hold the same array. The constructor establishes it and every operation keeps
  it (lemmas \<open>wf_store_new\<close> and \<open>wf_store_run_op\<close>).
\<close>

definition wf_store :: "'a QueueHandler \<Rightarrow> bool" where
  "wf_store s \<longleftrightarrow>
     (\<forall>g a. queues s g = Some a \<longrightarrow> a < nxt s) \<and>
     (\<forall>g g' a. queues s g = Some a \<and> queues s g' = Some a \<longrightarrow> g = g')"

subsection \<open>The operations as one interface\<close>

datatype ('song, 'd) operation =
    Clear
  | Enqueue "error + ('song, 'd) meta_result" requester playback_outcome
  | PeekCurrent
  | Advance
  | ClearExceptCurrent
  | Shuffle "nat \<Rightarrow> double"
  | Move int int
  | RemoveAt int
  | List

datatype ('song, 'd) answer =
    Done
  | Item "'song QueuedSong option"
  | Moved bool
  | Enqueued "error + ('song, 'd) meta_result"
  | Listed "'song QueuedSong list"

text \<open>The answer of \<open>List\<close> is what the returned array holds when the call returns.\<close>

fun run_op ::
  "'song QueuedSong QueueHandler \<Rightarrow> guild_id \<Rightarrow> ('song, 'd) operation \<Rightarrow>
   ('song, 'd) answer \<times> 'song QueuedSong QueueHandler" where
  "run_op s g Clear = (Done, clearQueue s g)"
| "run_op s g (Enqueue resolved user outcome) =
     (case addLinkToQueue s g resolved user outcome of (r, s') \<Rightarrow> (Enqueued r, s'))"
| "run_op s g PeekCurrent = (Item (getCurrentQueueItem s g), s)"
| "run_op s g Advance = (case getNextQueueItem s g of (x, s') \<Rightarrow> (Item x, s'))"
| "run_op s g ClearExceptCurrent = (Done, clearQueueExceptCurrent s g)"
| "run_op s g (Shuffle rnd) = (Done, shuffleQueue s g rnd)"
| "run_op s g (Move fromIndex toIndex) =
     (case moveSong s g fromIndex toIndex of (b, s') \<Rightarrow> (Moved b, s'))"
| "run_op s g (RemoveAt index) = (case removeSong s g index of (x, s') \<Rightarrow> (Item x, s'))"
| "run_op s g List = (case getQueue s g of (a, s') \<Rightarrow> (Listed (heap s' a), s'))"

subsection \<open>The shuffle the specification describes\<close>

text \<open>
  The specification asks for a Fisher-Yates shuffle of the suffix: going down from the
  last index, each position is swapped with an earlier or equal one. \<open>fisher_yates js xs\<close>
  does that with the chosen positions \<open>js\<close>: the first one is for the last index
  \<open>length js\<close>, the last one for index \<open>1\<close>. \<open>valid_draws js\<close> says that every choice is
  earlier or equal. \<open>draws rnd k i\<close> are the positions the loop of \<^verbatim>\<open>shuffleQueue\<close> computes
  from \<^verbatim>\<open>Math.random()\<close> when it starts at index \<open>i\<close> with \<open>k\<close> calls made before.
\<close>

fun fisher_yates :: "nat list \<Rightarrow> 'a list \<Rightarrow> 'a list" where
  "fisher_yates [] xs = xs"
| "fisher_yates (j # js) xs = fisher_yates js (swap (Suc (length js)) j xs)"


fun draws :: "(nat \<Rightarrow> double) \<Rightarrow> nat \<Rightarrow> nat \<Rightarrow> nat list" where
  "draws rnd k 0 = []"
| "draws rnd k (Suc i) = random_index (rnd k) (Suc i) # draws rnd (Suc k) i"

section \<open>The command dispatcher \<^verbatim>\<open>CommandHandler\<close>\<close>

text \<open>
  A message is represented by the parts \<^verbatim>\<open>handleMessage\<close> and \<^verbatim>\<open>checkRequirements\<close> read:
  its content, whether its author is a bot, its guild (\<open>None\<close> for \<^verbatim>\<open>null\<close>) and whether
  \<^verbatim>\<open>message.member?.voice.channel\<close> is set. Strings are lists of 8-bit characters, so the
  white space of \<^verbatim>\<open>trim\<close> and the letters of \<^verbatim>\<open>toLowerCase\<close> are those below 256.
\<close>

record Message =
  content :: string
  author_bot :: bool
  guild :: "guild_id option"
  member_voice_channel :: bool

text \<open>The optional flags of \<^verbatim>\<open>CommandRequirements\<close> are tested for truth: absent is \<open>False\<close>.\<close>

record CommandRequirements =
  userInVoiceChannel :: bool
  messageSentInGuild :: bool

text \<open>
  \<^verbatim>\<open>execute\<close> acts on the rest of the program, the state \<open>'w\<close>, and either returns or
  throws, in both cases leaving a state behind.
\<close>

datatype 'w executed = Returned 'w | Threw 'w

record 'w Command =
  name :: string
  aliases_cmd :: "string list option"
  requirements :: "CommandRequirements option"
  execute :: "Message \<Rightarrow> string list \<Rightarrow> 'w \<Rightarrow> 'w executed"

text \<open>
  The handler: the two maps of the class, the state the commands act on, and the logs of
  the calls \<^verbatim>\<open>command.execute(message, args)\<close> (name of the command, arguments), of
  \<^verbatim>\<open>messageHandler.replyToMessage\<close> (content of the message replied to, text) and of
  \<^verbatim>\<open>console.error\<close>.
\<close>

record 'w CommandHandler =
  commands :: "string \<rightharpoonup> 'w Command"
  aliases :: "string \<rightharpoonup> string"
  world :: 'w
  executions :: "(string \<times> string list) list"
  replies :: "(string \<times> string) list"
  errors :: nat

text \<open>
  \<^verbatim>\<open>configHandler.getGuildSetting\<close> is not part of these files: the two settings read are
  functions of the message's guild.
\<close>

record Config =
  COMMAND_PREFIX :: "guild_id option \<Rightarrow> string"
  REPLY_TO_UNKNOWN_COMMANDS :: "guild_id option \<Rightarrow> bool"

definition new_CommandHandler :: "'w \<Rightarrow> 'w CommandHandler" where
  "new_CommandHandler w =
     \<lparr>commands = Map.empty, aliases = Map.empty, world = w, executions = [], replies = [],
      errors = 0\<rparr>"

text \<open>\<^verbatim>\<open>loadCommands\<close>, on the modules found in the commands directory.\<close>

fun loadCommands :: "'w Command list \<Rightarrow> 'w CommandHandler \<Rightarrow> 'w CommandHandler" where
  "loadCommands [] h = h"
| "loadCommands (command # commandFiles) h =
     loadCommands commandFiles
       (let h1 = h\<lparr>commands := (commands h)(name command \<mapsto> command)\<rparr>
        in case aliases_cmd command of
             None \<Rightarrow> h1
           | Some as \<Rightarrow> h1\<lparr>aliases := fold (\<lambda>alias m. m(alias \<mapsto> name command)) as (aliases h1)\<rparr>)"

definition checkRequirements :: "Message \<Rightarrow> 'w Command \<Rightarrow> bool \<times> string" where
  "checkRequirements message command =
     (case requirements command of
        None \<Rightarrow> (True, [])
      | Some req \<Rightarrow>
          if messageSentInGuild req \<and> guild message = None
          then (False, ''This command can only be used in a server!'')
          else if userInVoiceChannel req \<and> \<not> member_voice_channel message
          then (False, ''You must be in a voice channel to use this command!'')
          else (True, []))"

definition startsWith :: "string \<Rightarrow> string \<Rightarrow> bool" where
  "startsWith str searchString = (take (length searchString) str = searchString)"

definition is_white_space :: "char \<Rightarrow> bool" where
  "is_white_space c = (of_char c \<in> {9, 10, 11, 12, 13, 32, 160 :: nat})"

definition trim :: "string \<Rightarrow> string" where
  "trim str = rev (dropWhile is_white_space (rev (dropWhile is_white_space str)))"

definition toLowerCase_char :: "char \<Rightarrow> char" where
  "toLowerCase_char c =
     (let n = of_char c :: nat
      in if (65 \<le> n \<and> n \<le> 90) \<or> (192 \<le> n \<and> n \<le> 222 \<and> n \<noteq> 215) then char_of (n + 32) else c)"

definition toLowerCase :: "string \<Rightarrow> string" where
  "toLowerCase str = map toLowerCase_char str"

text \<open>
  \<^verbatim>\<open>str.split(/ +/)\<close>: the pieces between the maximal runs of spaces; the empty string
  gives one empty piece.
\<close>

function split_spaces :: "string \<Rightarrow> string list" where
  "split_spaces [] = [[]]"
| "split_spaces (c # cs) =
     (if c = CHR '' '' then [] # split_spaces (dropWhile (\<lambda>d. d = CHR '' '') cs)
      else (case split_spaces cs of [] \<Rightarrow> [[c]] | piece # pieces \<Rightarrow> (c # piece) # pieces))"
  by pat_completeness auto
termination
  by (relation "measure length") (auto simp: le_imp_less_Suc length_dropWhile_le)

definition replyToMessage :: "Message \<Rightarrow> string \<Rightarrow> 'w CommandHandler \<Rightarrow> 'w CommandHandler" where
  "replyToMessage message text h = h\<lparr>replies := replies h @ [(content message, text)]\<rparr>"

definition handleMessage :: "Config \<Rightarrow> 'w CommandHandler \<Rightarrow> Message \<Rightarrow> 'w CommandHandler" where
  "handleMessage cfg h message =
     (let prefix = COMMAND_PREFIX cfg (guild message) in
      if \<not> startsWith (content message) prefix \<or> author_bot message then h
      else
        (let args0 = split_spaces (trim (drop (length prefix) (content message)));
             commandName = (case args0 of [] \<Rightarrow> None | a # _ \<Rightarrow> Some (toLowerCase a));
             args = tl args0
         in case commandName of
              None \<Rightarrow> h
            | Some cn \<Rightarrow>
                if cn = [] then h
                else
                  (let mainCommandName =
                         (case aliases h cn of None \<Rightarrow> cn | Some n \<Rightarrow> if n = [] then cn else n)
                   in case commands h mainCommandName of
                        Some command \<Rightarrow>
                          (case checkRequirements message command of
                             (requirementsMet, errorMessage) \<Rightarrow>
                               if \<not> requirementsMet then replyToMessage message errorMessage h
                               else
                                 (let h1 = h\<lparr>executions :=
                                        executions h @ [(name command, args)]\<rparr>
                                  in case execute command message args (world h) of
                                       Returned w \<Rightarrow> h1\<lparr>world := w\<rparr>
                                     | Threw w \<Rightarrow>
                                         replyToMessage message
                                           ''There was an error while executing that command!''
                                           (h1\<lparr>world := w, errors := Suc (errors h)\<rparr>)))
                      | None \<Rightarrow>
                          if REPLY_TO_UNKNOWN_COMMANDS cfg (guild message)
                          then replyToMessage message
                                 (''I don'' @ [CHR 0x27] @ ''t recognize that command!'') h
                          else h)))"

text \<open>
  The command of \<^verbatim>\<open>shuffle.ts\<close>. It acts on the queue handler, replies with
  \<^verbatim>\<open>message.reply\<close> and draws from \<^verbatim>\<open>Math.random\<close>; it is an \<^verbatim>\<open>async\<close> function, so
  the call returns a promise and never throws. \<open>random w\<close> are the values \<^verbatim>\<open>Math.random\<close>
  is going to return; the loop of \<^verbatim>\<open>shuffleQueue\<close> makes one call for each index from the
  last of the suffix down to 1, that is \<open>length queue - 2\<close> calls.
\<close>

record 'a bot_state =
  queueHandler :: "'a QueueHandler"
  message_replies :: "string list"
  random :: "nat \<Rightarrow> double"

definition shuffle_execute :: "Message \<Rightarrow> string list \<Rightarrow> 'a bot_state \<Rightarrow> 'a bot_state executed" where
  "shuffle_execute message args w =
     (case guild message of
        None \<Rightarrow>
          Returned (w\<lparr>message_replies :=
            message_replies w @ [''This command can only be used in a server!'']\<rparr>)
      | Some g \<Rightarrow>
          Returned (w\<lparr>queueHandler := shuffleQueue (queueHandler w) g (random w),
                     message_replies := message_replies w @ [''Queue has been shuffled!''],
                     random := (\<lambda>k. random w (k + (length (queue_list (queueHandler w) g) - 2)))\<rparr>))"

definition shuffle_command :: "'a bot_state Command" where
  "shuffle_command =
     \<lparr>name = ''shuffle'', aliases_cmd = None, requirements = None, execute = shuffle_execute\<rparr>"

section \<open>Example states\<close>

definition example_store :: "nat QueueHandler" where
  "example_store =
     set_queue ''T3'' [] (set_queue ''T2'' [10, 20, 30] (set_queue ''T1'' [5] new_QueueHandler))"

text \<open>
  A dispatcher with the shuffle command loaded, acting on the example store, with the
  prefix \<^verbatim>\<open>!\<close> for every guild.
\<close>

definition example_config :: Config where
  "example_config = \<lparr>COMMAND_PREFIX = (\<lambda>_. ''!''), REPLY_TO_UNKNOWN_COMMANDS = (\<lambda>_. True)\<rparr>"

definition example_handler :: "nat bot_state CommandHandler" where
  "example_handler =
     loadCommands [shuffle_command]
       (new_CommandHandler \<lparr>queueHandler = example_store, message_replies = [], random = (\<lambda>_. Double 0 0)\<rparr>)"

text \<open>
  The enqueue scenario of the specification: two requesters, two links that resolve, one
  that does not, and the store after the first enqueue on a new handler.
\<close>

definition userX :: requester where
  "userX = \<lparr>id_req = ''100'', username = ''x''\<rparr>"

definition userY :: requester where
  "userY = \<lparr>id_req = ''200'', username = ''y''\<rparr>"

definition resolvedA :: "(string, unit) meta_result" where
  "resolvedA = \<lparr>metadata = Some ''A'', downloadPromise = ()\<rparr>"

definition resolvedB :: "(string, unit) meta_result" where
  "resolvedB = \<lparr>metadata = Some ''B'', downloadPromise = ()\<rparr>"

definition unresolved :: "(string, unit) meta_result" where
  "unresolved = \<lparr>metadata = None, downloadPromise = ()\<rparr>"

definition store_A :: "string QueuedSong QueueHandler" where
  "store_A = snd (addLinkToQueue new_QueueHandler ''T'' (Inr resolvedA) userX StartPlaybackFails)"

text \<open>The same scenario with a second guild \<open>U\<close>, whose queue holds the second link.\<close>

definition store_AB :: "string QueuedSong QueueHandler" where
  "store_AB = snd (addLinkToQueue store_A ''U'' (Inr resolvedB) userY StartPlaybackOk)"

text \<open>
  What the operations of one guild leave alone: the entries and the queues of every
  other guild.
\<close>

definition same_elsewhere :: "guild_id \<Rightarrow> 'a QueueHandler \<Rightarrow> 'a QueueHandler \<Rightarrow> bool" where
  "same_elsewhere g s s' \<longleftrightarrow>
     (\<forall>g'. g' \<noteq> g \<longrightarrow> queues s' g' = queues s g' \<and> queue_of s' g' = queue_of s g')"

text \<open>
  Chances, for the question whether the shuffle is uniform. \<open>chance S P\<close> is the chance of
  \<open>P\<close> when every element of the finite set \<open>S\<close> is as likely as any other.
\<close>

definition chance :: "'a set \<Rightarrow> ('a \<Rightarrow> bool) \<Rightarrow> real" where
  "chance S P = real (card {x \<in> S. P x}) / real (card S)"

text \<open>
  The doubles a generator of 53 random bits returns from \<^verbatim>\<open>Math.random()\<close>: the multiples
  of \<open>2 ^ - 53\<close> below 1. Two calls give a pair of them, \<open>two_draws\<close> hands a pair to the
  loop, and \<open>shuffles_to s g ys rnd\<close> says that the shuffle of \<open>g\<close>'s queue with the draws
  \<open>rnd\<close> leaves \<open>ys\<close> behind the current item.
\<close>

definition random_grid :: "double set" where
  "random_grid = (\<lambda>m. Double m 53) ` {..<2 ^ 53}"




text \<open>A queue of four: the current item and a suffix of three.\<close>

definition shuffle_store :: "nat QueueHandler" where
  "shuffle_store = set_queue ''T'' [10, 20, 30, 40] new_QueueHandler"

section \<open>Basic facts about the store\<close>

lemma emit_simps [simp]:
  "queues (emit g s) = queues s" "heap (emit g s) = heap s" "nxt (emit g s) = nxt s"
  "emitted (emit g s) = emitted s @ [g]" "memberFetches (emit g s) = memberFetches s"
  "playbackStarts (emit g s) = playbackStarts s" "errorsLogged (emit g s) = errorsLogged s"
  by (simp_all add: emit_def)

lemma array_store_simps [simp]:
  "queues (array_store a xs s) = queues s" "heap (array_store a xs s) = (heap s)(a := xs)"
  "nxt (array_store a xs s) = nxt s" "emitted (array_store a xs s) = emitted s"
  "memberFetches (array_store a xs s) = memberFetches s"
  "playbackStarts (array_store a xs s) = playbackStarts s"
  "errorsLogged (array_store a xs s) = errorsLogged s"
  by (simp_all add: array_store_def)

lemma set_queue_simps [simp]:
  "queues (set_queue g xs s) = (queues s)(g \<mapsto> nxt s)"
  "heap (set_queue g xs s) = (heap s)(nxt s := xs)"
  "nxt (set_queue g xs s) = Suc (nxt s)" "emitted (set_queue g xs s) = emitted s"
  "memberFetches (set_queue g xs s) = memberFetches s"
  "playbackStarts (set_queue g xs s) = playbackStarts s"
  "errorsLogged (set_queue g xs s) = errorsLogged s"
  by (simp_all add: set_queue_def alloc_def)

lemma queue_of_None: "queue_of s g = None \<longleftrightarrow> queues s g = None"
  by (simp add: queue_of_def)

lemma queue_of_Some: "queue_of s g = Some q \<longleftrightarrow> (\<exists>a. queues s g = Some a \<and> heap s a = q)"
  by (auto simp: queue_of_def)

lemma example_store_queues [simp]:
  "queues example_store ''T1'' = Some 0" "queues example_store ''T2'' = Some 1"
  "queues example_store ''T3'' = Some 2" "queues example_store ''T0'' = None"
  by (simp_all add: example_store_def new_QueueHandler_def)

lemma example_store_heap [simp]:
  "heap example_store 0 = [5]" "heap example_store (Suc 0) = [10, 20, 30]"
  "heap example_store 2 = []"
  by (simp_all add: example_store_def new_QueueHandler_def)

lemma example_store_logs [simp]:
  "emitted example_store = []" "nxt example_store = 3"
  by (simp_all add: example_store_def new_QueueHandler_def)

subsection \<open>\<^verbatim>\<open>splice\<close> at the indices the operations use\<close>

lemma splice_one:
  assumes "0 \<le> i" "i < int (length xs)"
  shows "splice_array xs i 1 [] = ([xs ! nat i], take (nat i) xs @ drop (Suc (nat i)) xs)"
proof -
  from assms have n: "nat i < length xs" by linarith
  then have "take 1 (drop (nat i) xs) = [xs ! nat i]"
    by (simp add: take_Suc_conv_app_nth[of 0] hd_drop_conv_nth take_Suc)
  moreover from assms have "min 1 (int (length xs) - i) = 1" by simp
  moreover from assms have "nat (i + 1) = Suc (nat i)" by simp
  ultimately show ?thesis using assms
    by (simp add: splice_array_def Let_def min_absorb1)
qed

lemma splice_insert:
  assumes "0 \<le> i" "i \<le> int (length xs)"
  shows "snd (splice_array xs i 0 items) = take (nat i) xs @ items @ drop (nat i) xs"
  using assms by (simp add: splice_array_def Let_def)

section \<open>\<^verbatim>\<open>getNextQueueItem\<close>: advancing the queue\<close>

text \<open>
  Claim C4. On a queue that is empty or absent \<^verbatim>\<open>getNextQueueItem\<close> changes nothing, emits
  nothing and returns \<^verbatim>\<open>null\<close>. On a non-empty queue it removes the element at position 0,
  so the length goes down by exactly one and the next element moves to position 0, and it
  emits \<^verbatim>\<open>queueUpdate\<close>; it returns \<^verbatim>\<open>null\<close> and leaves the queue empty when the length was 1,
  and returns the new element at position 0 when the length was at least 2.
\<close>

theorem getNextQueueItem_spec:
  "(queue_list s g = [] \<longrightarrow> getNextQueueItem s g = (None, s)) \<and>
   (queue_list s g \<noteq> [] \<longrightarrow>
      queue_list (snd (getNextQueueItem s g)) g = tl (queue_list s g) \<and>
      length (queue_list (snd (getNextQueueItem s g)) g) = length (queue_list s g) - 1 \<and>
      emitted (snd (getNextQueueItem s g)) = emitted s @ [g] \<and>
      (length (queue_list s g) = 1 \<longrightarrow>
         fst (getNextQueueItem s g) = None \<and> queue_list (snd (getNextQueueItem s g)) g = []) \<and>
      (2 \<le> length (queue_list s g) \<longrightarrow>
         fst (getNextQueueItem s g) = Some (queue_list s g ! 1) \<and>
         fst (getNextQueueItem s g) = Some (queue_list (snd (getNextQueueItem s g)) g ! 0)))"
proof (cases "queues s g")
  case None
  then show ?thesis by (simp add: getNextQueueItem_def queue_list_def)
next
  case (Some a)
  show ?thesis
  proof (cases "heap s a")
    case Nil
    with Some show ?thesis by (simp add: getNextQueueItem_def queue_list_def)
  next
    case (Cons x rest)
    with Some show ?thesis
      by (cases rest) (simp_all add: getNextQueueItem_def queue_list_def Let_def)
  qed
qed

theorem getNextQueueItem_spec_witness:
  "getNextQueueItem example_store ''T3'' = (None, example_store) \<and>
   getNextQueueItem example_store ''T0'' = (None, example_store) \<and>
   fst (getNextQueueItem example_store ''T1'') = None \<and>
   queue_list (snd (getNextQueueItem example_store ''T1'')) ''T1'' = [] \<and>
   fst (getNextQueueItem example_store ''T2'') = Some 20 \<and>
   queue_list (snd (getNextQueueItem example_store ''T2'')) ''T2'' = [20, 30] \<and>
   emitted (snd (getNextQueueItem example_store ''T2'')) = [''T2'']"
  using getNextQueueItem_spec [of example_store "''T3''"]
    getNextQueueItem_spec [of example_store "''T0''"]
    getNextQueueItem_spec [of example_store "''T1''"]
    getNextQueueItem_spec [of example_store "''T2''"]
  by (simp add: queue_list_def)

section \<open>\<^verbatim>\<open>removeSong\<close>: removing at an index\<close>

text \<open>
  Claim C6. For every integer index: on an empty or absent queue, or with the index
  outside \<open>[0, length)\<close>, \<^verbatim>\<open>removeSong\<close> returns \<^verbatim>\<open>null\<close> and changes nothing. Otherwise it
  returns the element that was at the index, the queue afterwards is the old one without
  that position (the other elements in their order), one shorter, and \<^verbatim>\<open>queueUpdate\<close> is
  emitted.
\<close>

theorem removeSong_spec:
  "((queue_list s g = [] \<or> index < 0 \<or> int (length (queue_list s g)) \<le> index) \<longrightarrow>
      removeSong s g index = (None, s)) \<and>
   (0 \<le> index \<and> index < int (length (queue_list s g)) \<longrightarrow>
      fst (removeSong s g index) = Some (queue_list s g ! nat index) \<and>
      queue_list (snd (removeSong s g index)) g =
        take (nat index) (queue_list s g) @ drop (Suc (nat index)) (queue_list s g) \<and>
      length (queue_list (snd (removeSong s g index)) g) = length (queue_list s g) - 1 \<and>
      emitted (snd (removeSong s g index)) = emitted s @ [g])"
proof (cases "queues s g")
  case None
  then show ?thesis by (simp add: removeSong_def queue_list_def)
next
  case (Some a)
  have "0 \<le> index \<Longrightarrow> index < int (length (heap s a)) \<Longrightarrow> heap s a \<noteq> []"
    by auto
  with Some show ?thesis
    by (auto simp: removeSong_def queue_list_def Let_def splice_one)
qed


theorem removeSong_spec_witness:
  "removeSong example_store ''T3'' 0 = (None, example_store) \<and>
   removeSong example_store ''T2'' (- 1) = (None, example_store) \<and>
   removeSong example_store ''T2'' 3 = (None, example_store) \<and>
   fst (removeSong example_store ''T2'' 1) = Some 20 \<and>
   queue_list (snd (removeSong example_store ''T2'' 1)) ''T2'' = [10, 30] \<and>
   emitted (snd (removeSong example_store ''T2'' 1)) = [''T2'']"
  using removeSong_spec [of example_store "''T3''" 0]
    removeSong_spec [of example_store "''T2''" "- 1"]
    removeSong_spec [of example_store "''T2''" 3]
    removeSong_spec [of example_store "''T2''" 1]
  by (simp add: queue_list_def)

section \<open>\<^verbatim>\<open>moveSong\<close>: relocating an element\<close>

text \<open>
  The array after the two \<^verbatim>\<open>splice\<close> calls, element by element: the moved element is at
  the target, the elements between the two positions have shifted by one towards the
  source, the others are where they were.
\<close>

lemma move_result_nth:
  assumes "f < length q" "t < length q" "f \<noteq> t" "k < length q"
  shows "(take t (take f q @ drop (Suc f) q) @ [q ! f] @ drop t (take f q @ drop (Suc f) q)) ! k =
         (if k = t then q ! f
          else if f \<le> k \<and> k < t then q ! (k + 1)
          else if t < k \<and> k \<le> f then q ! (k - 1)
          else q ! k)"
  using assms by (auto simp: nth_append min_def)

lemma move_result_length:
  assumes "f < length q" "t < length q"
  shows "length (take t (take f q @ drop (Suc f) q) @ [q ! f] @ drop t (take f q @ drop (Suc f) q)) = length q"
  using assms by auto

lemma move_result_mset:
  assumes "f < length q" "t < length q"
  shows "mset (take t (take f q @ drop (Suc f) q) @ [q ! f] @ drop t (take f q @ drop (Suc f) q)) = mset q"
proof -
  let ?r = "take f q @ drop (Suc f) q"
  have "mset (take t ?r @ [q ! f] @ drop t ?r) = mset (take t ?r @ drop t ?r) + {#q ! f#}"
    by (simp del: append_take_drop_id)
  also have "\<dots> = mset ?r + {#q ! f#}" by (simp only: append_take_drop_id)
  also have "\<dots> = mset (take f q @ q ! f # drop (Suc f) q)" by simp
  also have "\<dots> = mset q" using assms by (simp only: id_take_nth_drop[symmetric])
  finally show ?thesis .
qed

lemma moveSong_valid:
  assumes "queues s g = Some a" "0 \<le> fromIndex" "fromIndex < int (length (heap s a))"
    "0 \<le> toIndex" "toIndex < int (length (heap s a))" "fromIndex \<noteq> toIndex"
  shows "moveSong s g fromIndex toIndex =
     (True, emit g (array_store a
        (take (nat toIndex) (take (nat fromIndex) (heap s a) @ drop (Suc (nat fromIndex)) (heap s a)) @
         [heap s a ! nat fromIndex] @
         drop (nat toIndex) (take (nat fromIndex) (heap s a) @ drop (Suc (nat fromIndex)) (heap s a))) s))"
proof -
  let ?q = "heap s a"
  let ?r = "take (nat fromIndex) ?q @ drop (Suc (nat fromIndex)) ?q"
  have ne: "length ?q \<noteq> 0" using assms by auto
  have len: "int (length ?r) = int (length ?q) - 1" using assms by auto
  have "snd (splice_array ?r toIndex 0 [?q ! nat fromIndex]) =
      take (nat toIndex) ?r @ [?q ! nat fromIndex] @ drop (nat toIndex) ?r"
    using assms len by (intro splice_insert) linarith+
  then show ?thesis using assms ne
    by (simp add: moveSong_def Let_def splice_one del: length_0_conv)
qed

text \<open>
  Claim C5. For all integers \<open>fromIndex\<close> and \<open>toIndex\<close>: when the queue is empty or absent,
  an index is outside \<open>[0, length)\<close> or the two are equal, \<^verbatim>\<open>moveSong\<close> returns \<^verbatim>\<open>false\<close>
  and the state is unchanged (no mutation, no notification). Otherwise it returns \<^verbatim>\<open>true\<close>,
  emits \<^verbatim>\<open>queueUpdate\<close>, and the queue has the same length and the same elements with the
  element of \<open>fromIndex\<close> at \<open>toIndex\<close> and the intervening ones shifted by one. Index 0 is
  treated as any other index.
\<close>

theorem moveSong_spec:
  "((queue_list s g = [] \<or> fromIndex < 0 \<or> int (length (queue_list s g)) \<le> fromIndex \<or>
     toIndex < 0 \<or> int (length (queue_list s g)) \<le> toIndex \<or> fromIndex = toIndex) \<longrightarrow>
      moveSong s g fromIndex toIndex = (False, s)) \<and>
   (0 \<le> fromIndex \<and> fromIndex < int (length (queue_list s g)) \<and>
    0 \<le> toIndex \<and> toIndex < int (length (queue_list s g)) \<and> fromIndex \<noteq> toIndex \<longrightarrow>
      fst (moveSong s g fromIndex toIndex) = True \<and>
      emitted (snd (moveSong s g fromIndex toIndex)) = emitted s @ [g] \<and>
      length (queue_list (snd (moveSong s g fromIndex toIndex)) g) = length (queue_list s g) \<and>
      mset (queue_list (snd (moveSong s g fromIndex toIndex)) g) = mset (queue_list s g) \<and>
      (\<forall>k < length (queue_list s g).
         queue_list (snd (moveSong s g fromIndex toIndex)) g ! k =
           (if k = nat toIndex then queue_list s g ! nat fromIndex
            else if nat fromIndex \<le> k \<and> k < nat toIndex then queue_list s g ! (k + 1)
            else if nat toIndex < k \<and> k \<le> nat fromIndex then queue_list s g ! (k - 1)
            else queue_list s g ! k)))"
proof (cases "queues s g")
  case None
  then show ?thesis by (simp add: moveSong_def queue_list_def)
next
  case (Some a)
  have invalid: "moveSong s g fromIndex toIndex = (False, s)"
    if "heap s a = [] \<or> fromIndex < 0 \<or> int (length (heap s a)) \<le> fromIndex \<or>
        toIndex < 0 \<or> int (length (heap s a)) \<le> toIndex \<or> fromIndex = toIndex"
    using that Some by (auto simp: moveSong_def Let_def)
  have valid: ?thesis
    if v: "0 \<le> fromIndex" "fromIndex < int (length (heap s a))"
      "0 \<le> toIndex" "toIndex < int (length (heap s a))" "fromIndex \<noteq> toIndex"
  proof -
    from v have n: "nat fromIndex < length (heap s a)" "nat toIndex < length (heap s a)"
      "nat fromIndex \<noteq> nat toIndex" by linarith+
    from v have ne: "heap s a \<noteq> []" by auto
    define q' where "q' = take (nat toIndex) (take (nat fromIndex) (heap s a) @ drop (Suc (nat fromIndex)) (heap s a)) @
         [heap s a ! nat fromIndex] @
         drop (nat toIndex) (take (nat fromIndex) (heap s a) @ drop (Suc (nat fromIndex)) (heap s a))"
    have m: "moveSong s g fromIndex toIndex = (True, emit g (array_store a q' s))"
      unfolding q'_def by (rule moveSong_valid [OF Some v])
    have ql: "queue_list s g = heap s a" using Some by (simp add: queue_list_def)
    have ql': "queue_list (snd (moveSong s g fromIndex toIndex)) g = q'"
      using Some by (simp add: m queue_list_def)
    have 1: "length q' = length (heap s a)"
      unfolding q'_def by (rule move_result_length [OF n(1,2)])
    have 2: "mset q' = mset (heap s a)"
      unfolding q'_def by (rule move_result_mset [OF n(1,2)])
    have 3: "\<forall>k < length (heap s a). q' ! k =
           (if k = nat toIndex then heap s a ! nat fromIndex
            else if nat fromIndex \<le> k \<and> k < nat toIndex then heap s a ! (k + 1)
            else if nat toIndex < k \<and> k \<le> nat fromIndex then heap s a ! (k - 1)
            else heap s a ! k)"
      unfolding q'_def using move_result_nth [OF n] by blast
    have 4: "fst (moveSong s g fromIndex toIndex) = True"
      "emitted (snd (moveSong s g fromIndex toIndex)) = emitted s @ [g]"
      by (simp_all add: m)
    show ?thesis
      unfolding ql ql' using v ne 1 2 3 4 by simp
  qed
  show ?thesis
  proof (cases "0 \<le> fromIndex \<and> fromIndex < int (length (heap s a)) \<and>
    0 \<le> toIndex \<and> toIndex < int (length (heap s a)) \<and> fromIndex \<noteq> toIndex")
    case True
    then show ?thesis using valid by blast
  next
    case False
    then have "moveSong s g fromIndex toIndex = (False, s)"
      by (intro invalid) linarith
    with False Some show ?thesis by (auto simp: queue_list_def)
  qed
qed

theorem moveSong_spec_witness:
  "moveSong example_store ''T3'' 0 0 = (False, example_store) \<and>
   moveSong example_store ''T2'' 1 1 = (False, example_store) \<and>
   moveSong example_store ''T2'' 0 3 = (False, example_store) \<and>
   moveSong example_store ''T2'' (- 1) 2 = (False, example_store) \<and>
   fst (moveSong example_store ''T2'' 0 2) = True \<and>
   emitted (snd (moveSong example_store ''T2'' 0 2)) = [''T2''] \<and>
   queue_list (snd (moveSong example_store ''T2'' 0 2)) ''T2'' ! 0 = 20 \<and>
   queue_list (snd (moveSong example_store ''T2'' 0 2)) ''T2'' ! 1 = 30 \<and>
   queue_list (snd (moveSong example_store ''T2'' 0 2)) ''T2'' ! 2 = 10 \<and>
   length (queue_list (snd (moveSong example_store ''T2'' 0 2)) ''T2'') = 3"
proof -
  have k: "(0::nat) < 3" "(1::nat) < 3" "(2::nat) < 3" by simp_all
  show ?thesis
    using moveSong_spec [of example_store "''T3''" 0 0]
      moveSong_spec [of example_store "''T2''" 1 1]
      moveSong_spec [of example_store "''T2''" 0 3]
      moveSong_spec [of example_store "''T2''" "- 1" 2]
      moveSong_spec [of example_store "''T2''" 0 2]
    by (simp add: queue_list_def)
qed

section \<open>\<^verbatim>\<open>addLinkToQueue\<close>: enqueueing\<close>

lemma start_playback_simps [simp]:
  "queues (start_playback g u out s) = queues s" "heap (start_playback g u out s) = heap s"
  "nxt (start_playback g u out s) = nxt s" "emitted (start_playback g u out s) = emitted s"
  "memberFetches (start_playback g u out s) = memberFetches s @ [(g, u)]"
  "playbackStarts (start_playback g u out s) =
     (if out = MemberFetchFails then playbackStarts s else playbackStarts s @ [(g, u)])"
  "errorsLogged (start_playback g u out s) =
     (if out = StartPlaybackOk then errorsLogged s else Suc (errorsLogged s))"
  by (cases out; simp add: start_playback_def Let_def)+

lemma array_push_simps [simp]:
  "queues (array_push a x s) = queues s" "heap (array_push a x s) = (heap s)(a := heap s a @ [x])"
  "nxt (array_push a x s) = nxt s" "emitted (array_push a x s) = emitted s"
  "memberFetches (array_push a x s) = memberFetches s"
  "playbackStarts (array_push a x s) = playbackStarts s"
  "errorsLogged (array_push a x s) = errorsLogged s"
  by (simp_all add: array_push_def)

lemma addLinkToQueue_resolved:
  assumes "metadata result = Some m"
  shows "addLinkToQueue s g (Inr result) user outcome =
    (Inr result,
     (let item = \<lparr>song = m, requestedBy = \<lparr>id_req = id_req user, username = username user\<rparr>\<rparr>;
          s3 = (case queues s g of
                  None \<Rightarrow> emit g (array_push (nxt s) item (set_queue g [] s))
                | Some a \<Rightarrow> emit g (array_push a item s))
      in if queue_list s g = [] then start_playback g (id_req user) outcome s3 else s3))"
  using assms by (cases "queues s g") (auto simp: addLinkToQueue_def queue_list_def Let_def)

lemma store_A_simps [simp]:
  "queues store_A ''T'' = Some 0"
  "heap store_A 0 = [\<lparr>song = ''A'', requestedBy = userX\<rparr>]"
  "memberFetches store_A = [(''T'', ''100'')]" "playbackStarts store_A = [(''T'', ''100'')]"
  "emitted store_A = [''T'']" "errorsLogged store_A = 1"
proof -
  have a: "metadata resolvedA = Some ''A''" by (simp add: resolvedA_def)
  note r = addLinkToQueue_resolved [OF a, of new_QueueHandler "''T''" userX StartPlaybackFails]
  show "queues store_A ''T'' = Some 0"
    "heap store_A 0 = [\<lparr>song = ''A'', requestedBy = userX\<rparr>]"
    "memberFetches store_A = [(''T'', ''100'')]" "playbackStarts store_A = [(''T'', ''100'')]"
    "emitted store_A = [''T'']" "errorsLogged store_A = 1"
    unfolding store_A_def r
    by (simp_all add: queue_list_def new_QueueHandler_def userX_def)
qed

text \<open>
  Claim C2. When the link resolves, \<^verbatim>\<open>addLinkToQueue\<close> succeeds whatever the playback
  collaborators do: the new item is at the tail of the queue and \<^verbatim>\<open>queueUpdate\<close> is emitted.
  Starting playback (resolving the requester's membership, then \<^verbatim>\<open>startPlayback\<close>) is
  attempted exactly once when the queue was empty or absent before the append, and not at
  all when it held an element: then none of the three logs changes. A failed attempt is
  logged and leaves result and queue as they are; \<^verbatim>\<open>startPlayback\<close> itself is not reached
  when the membership cannot be resolved.
\<close>

theorem addLinkToQueue_playback:
  assumes "metadata result = Some m"
  shows "fst (addLinkToQueue s g (Inr result) user outcome) = Inr result \<and>
    queue_list (snd (addLinkToQueue s g (Inr result) user outcome)) g =
      queue_list s g @ [\<lparr>song = m, requestedBy = \<lparr>id_req = id_req user, username = username user\<rparr>\<rparr>] \<and>
    emitted (snd (addLinkToQueue s g (Inr result) user outcome)) = emitted s @ [g] \<and>
    (queue_list s g = [] \<longrightarrow>
       memberFetches (snd (addLinkToQueue s g (Inr result) user outcome)) =
         memberFetches s @ [(g, id_req user)] \<and>
       playbackStarts (snd (addLinkToQueue s g (Inr result) user outcome)) =
         (if outcome = MemberFetchFails then playbackStarts s
          else playbackStarts s @ [(g, id_req user)])) \<and>
    (queue_list s g \<noteq> [] \<longrightarrow>
       memberFetches (snd (addLinkToQueue s g (Inr result) user outcome)) = memberFetches s \<and>
       playbackStarts (snd (addLinkToQueue s g (Inr result) user outcome)) = playbackStarts s \<and>
       errorsLogged (snd (addLinkToQueue s g (Inr result) user outcome)) = errorsLogged s)"
  by (cases "queues s g")
    (simp_all add: addLinkToQueue_resolved [OF assms] queue_list_def Let_def)

theorem addLinkToQueue_playback_witness:
  "metadata resolvedA = Some ''A'' \<and> metadata resolvedB = Some ''B'' \<and>
   queue_list (new_QueueHandler :: string QueuedSong QueueHandler) ''T'' = [] \<and>
   fst (addLinkToQueue new_QueueHandler ''T'' (Inr resolvedA) userX StartPlaybackFails) = Inr resolvedA \<and>
   queue_list store_A ''T'' = [\<lparr>song = ''A'', requestedBy = userX\<rparr>] \<and>
   memberFetches store_A = [(''T'', ''100'')] \<and>
   queue_list (snd (addLinkToQueue store_A ''T'' (Inr resolvedB) userY StartPlaybackOk)) ''T'' =
     [\<lparr>song = ''A'', requestedBy = userX\<rparr>, \<lparr>song = ''B'', requestedBy = userY\<rparr>] \<and>
   memberFetches (snd (addLinkToQueue store_A ''T'' (Inr resolvedB) userY StartPlaybackOk)) =
     [(''T'', ''100'')] \<and>
   playbackStarts (snd (addLinkToQueue store_A ''T'' (Inr resolvedB) userY StartPlaybackOk)) =
     [(''T'', ''100'')]"
proof -
  have a: "metadata resolvedA = Some ''A''" and b: "metadata resolvedB = Some ''B''"
    by (simp_all add: resolvedA_def resolvedB_def)
  have e: "queue_list (new_QueueHandler :: string QueuedSong QueueHandler) ''T'' = []"
    by (simp add: queue_list_def new_QueueHandler_def)
  have n: "queue_list store_A ''T'' \<noteq> []" by (simp add: queue_list_def)
  show ?thesis
    using addLinkToQueue_playback [OF a, of new_QueueHandler "''T''" userX StartPlaybackFails]
      addLinkToQueue_playback [OF b, of store_A "''T''" userY StartPlaybackOk] a b e n
    by (simp add: store_A_def [symmetric] userX_def userY_def queue_list_def)
qed

text \<open>
  Claim C7. When the resolver gives no metadata (its promise rejects, or the metadata is
  \<^verbatim>\<open>null\<close>), \<^verbatim>\<open>addLinkToQueue\<close> ends with an error, \<^verbatim>\<open>Error('Could not fetch song metadata')\<close>
  in the second case, and the state is the one it started from: no queue is created or
  changed and nothing is emitted.
\<close>

theorem addLinkToQueue_metadata_unavailable:
  "addLinkToQueue s g (Inl e :: error + ('song, 'd) meta_result) user outcome = (Inl e, s) \<and>
   (metadata (result :: ('song, 'd) meta_result) = None \<longrightarrow>
      addLinkToQueue s g (Inr result) user outcome = (Inl CouldNotFetchSongMetadata, s))"
  by (simp add: addLinkToQueue_def)

theorem addLinkToQueue_metadata_unavailable_witness:
  "metadata unresolved = None \<and>
   addLinkToQueue store_A ''T'' (Inr unresolved) userY StartPlaybackOk =
     (Inl CouldNotFetchSongMetadata, store_A) \<and>
   addLinkToQueue store_A ''T'' (Inl ResolverRejected :: error + (string, unit) meta_result) userY StartPlaybackOk =
     (Inl ResolverRejected, store_A)"
  using addLinkToQueue_metadata_unavailable [of store_A "''T''" ResolverRejected userY StartPlaybackOk unresolved]
  by (simp add: unresolved_def)

section \<open>\<^verbatim>\<open>clearQueueExceptCurrent\<close>: keeping only the current item\<close>

text \<open>
  Claim C3 says that on a queue of at most one element the operation is a no-op and that
  \<^verbatim>\<open>queueUpdate\<close> is emitted only when elements were removed. The guard of the code is
  \<^verbatim>\<open>queue.length === 0\<close>: on a queue of exactly one element it stores a new one-element
  array and emits, though nothing was removed.
\<close>

theorem clearQueueExceptCurrent_emits_counterexample:
  "queue_list example_store ''T1'' = [5] \<and>
   queue_list (clearQueueExceptCurrent example_store ''T1'') ''T1'' = [5] \<and>
   emitted (clearQueueExceptCurrent example_store ''T1'') = emitted example_store @ [''T1''] \<and>
   clearQueueExceptCurrent example_store ''T1'' \<noteq> example_store"
proof -
  have e: "emitted (clearQueueExceptCurrent example_store ''T1'') = emitted example_store @ [''T1'']"
    by (simp add: clearQueueExceptCurrent_def)
  then have "clearQueueExceptCurrent example_store ''T1'' \<noteq> example_store"
    by (metis append_self_conv not_Cons_self2)
  with e show ?thesis
    by (simp add: clearQueueExceptCurrent_def queue_list_def)
qed

text \<open>
  Claim C3 as the code has it: the queue afterwards is the first element of the old one,
  if there was one. On an empty or absent queue nothing changes and nothing is emitted;
  on every non-empty queue, also one of a single element, \<^verbatim>\<open>queueUpdate\<close> is emitted.
\<close>

theorem clearQueueExceptCurrent_spec:
  "(queue_list s g = [] \<longrightarrow> clearQueueExceptCurrent s g = s) \<and>
   (queue_list s g \<noteq> [] \<longrightarrow>
      queue_list (clearQueueExceptCurrent s g) g = [queue_list s g ! 0] \<and>
      emitted (clearQueueExceptCurrent s g) = emitted s @ [g]) \<and>
   queue_list (clearQueueExceptCurrent s g) g = take 1 (queue_list s g)"
proof (cases "queues s g")
  case None
  then show ?thesis by (simp add: clearQueueExceptCurrent_def queue_list_def)
next
  case (Some a)
  then show ?thesis
    by (cases "heap s a") (simp_all add: clearQueueExceptCurrent_def queue_list_def)
qed

theorem clearQueueExceptCurrent_spec_witness:
  "clearQueueExceptCurrent example_store ''T3'' = example_store \<and>
   clearQueueExceptCurrent example_store ''T0'' = example_store \<and>
   queue_list (clearQueueExceptCurrent example_store ''T2'') ''T2'' = [10] \<and>
   emitted (clearQueueExceptCurrent example_store ''T2'') = [''T2''] \<and>
   queue_list (clearQueueExceptCurrent example_store ''T1'') ''T1'' = [5] \<and>
   emitted (clearQueueExceptCurrent example_store ''T1'') = [''T1'']"
  using clearQueueExceptCurrent_spec [of example_store "''T3''"]
    clearQueueExceptCurrent_spec [of example_store "''T0''"]
    clearQueueExceptCurrent_spec [of example_store "''T2''"]
    clearQueueExceptCurrent_spec [of example_store "''T1''"]
  by (simp add: queue_list_def)

section \<open>\<^verbatim>\<open>getQueue\<close>: reading the queue\<close>

lemma alloc_simps [simp]:
  "fst (alloc xs s) = nxt s"
  "queues (snd (alloc xs s)) = queues s" "heap (snd (alloc xs s)) = (heap s)(nxt s := xs)"
  "nxt (snd (alloc xs s)) = Suc (nxt s)" "emitted (snd (alloc xs s)) = emitted s"
  by (simp_all add: alloc_def)

lemma wf_store_example [simp]: "wf_store example_store"
  by (auto simp: wf_store_def example_store_def new_QueueHandler_def split: if_splits)

text \<open>
  Claim C8 says that the caller of \<^verbatim>\<open>getQueue\<close> gets no live reference. For a guild with an
  entry the code returns the array the map holds: a \<^verbatim>\<open>push\<close> on the result is a \<^verbatim>\<open>push\<close> on
  the guild's queue.
\<close>

theorem getQueue_live_reference_counterexample:
  "queue_list example_store ''T1'' = [5] \<and>
   heap (snd (getQueue example_store ''T1'')) (fst (getQueue example_store ''T1'')) = [5] \<and>
   queue_list (array_push (fst (getQueue example_store ''T1'')) 6
                 (snd (getQueue example_store ''T1''))) ''T1'' = [5, 6]"
  by (simp add: getQueue_def queue_list_def)

text \<open>
  Claim C8 as the code has it. \<^verbatim>\<open>getQueue\<close> returns an array holding the guild's queue in
  order (empty for a guild without an entry) and changes no entry of the map. For a guild
  with an entry the result is the array of the map itself and the state is untouched, so
  whatever the caller writes into it is the guild's queue afterwards. For a guild
  without an entry the result is a new array that no entry refers to: writing to it
  changes no queue.
\<close>

theorem getQueue_spec:
  "heap (snd (getQueue s g)) (fst (getQueue s g)) = queue_list s g \<and>
   queues (snd (getQueue s g)) = queues s \<and>
   (\<forall>a. queues s g = Some a \<longrightarrow>
      getQueue s g = (a, s) \<and>
      (\<forall>xs. queue_list (array_store (fst (getQueue s g)) xs (snd (getQueue s g))) g = xs)) \<and>
   (queues s g = None \<and> wf_store s \<longrightarrow>
      (\<forall>g'. queues s g' \<noteq> Some (fst (getQueue s g))) \<and>
      (\<forall>g'. queue_list (snd (getQueue s g)) g' = queue_list s g') \<and>
      (\<forall>xs g'. queue_list (array_store (fst (getQueue s g)) xs (snd (getQueue s g))) g' =
         queue_list s g'))"
proof -
  have fresh: "queues s g' \<noteq> Some (nxt s)" if "wf_store s" for g'
    using that by (auto simp: wf_store_def)
  show ?thesis
  proof (cases "queues s g")
    case None
    then show ?thesis using fresh
      by (auto simp: getQueue_def queue_list_def split: option.splits)
  next
    case (Some a)
    then show ?thesis by (simp add: getQueue_def queue_list_def)
  qed
qed

theorem getQueue_spec_witness:
  "getQueue example_store ''T2'' = (1, example_store) \<and>
   heap example_store 1 = [10, 20, 30] \<and>
   queue_list (array_store (fst (getQueue example_store ''T2'')) [7]
      (snd (getQueue example_store ''T2''))) ''T2'' = [7] \<and>
   queues example_store ''T0'' = None \<and> wf_store example_store \<and>
   heap (snd (getQueue example_store ''T0'')) (fst (getQueue example_store ''T0'')) = [] \<and>
   queue_list (array_store (fst (getQueue example_store ''T0'')) [7]
      (snd (getQueue example_store ''T0''))) ''T0'' = [] \<and>
   queue_list (array_store (fst (getQueue example_store ''T0'')) [7]
      (snd (getQueue example_store ''T0''))) ''T2'' = [10, 20, 30]"
proof -
  have q: "queues example_store ''T2'' = Some 1" by simp
  have n: "queues example_store ''T0'' = None \<and> wf_store example_store" by simp
  have l: "queue_list example_store ''T2'' = [10, 20, 30]" "queue_list example_store ''T0'' = []"
    by (simp_all add: queue_list_def)
  note known = getQueue_spec [of example_store "''T2''"]
  note unknown = getQueue_spec [of example_store "''T0''"]
  from known q have 1: "getQueue example_store ''T2'' = (1, example_store)" by blast
  from known q have 2: "queue_list (array_store (fst (getQueue example_store ''T2'')) [7]
      (snd (getQueue example_store ''T2''))) ''T2'' = [7]" by blast
  from unknown l have 3:
    "heap (snd (getQueue example_store ''T0'')) (fst (getQueue example_store ''T0'')) = []"
    by simp
  from unknown n have 4: "queue_list (array_store (fst (getQueue example_store ''T0'')) [7]
      (snd (getQueue example_store ''T0''))) g' = queue_list example_store g'" for g'
    by blast
  show ?thesis using 1 2 3 4 [of "''T0''"] 4 [of "''T2''"] n l by simp
qed

section \<open>Isolation of the guilds\<close>

subsection \<open>The well-formed stores are the reachable ones\<close>

lemma store_A_metadata: "metadata resolvedA = Some ''A''"
  by (simp add: resolvedA_def)

lemma wf_store_new: "wf_store new_QueueHandler"
  by (simp add: wf_store_def new_QueueHandler_def)

lemma wf_store_set_queue: "wf_store s \<Longrightarrow> wf_store (set_queue g xs s)"
  unfolding wf_store_def
  by (auto simp: less_Suc_eq split: if_splits)

lemma wf_store_cong:
  "wf_store s \<Longrightarrow> queues s' = queues s \<Longrightarrow> nxt s' = nxt s \<Longrightarrow> wf_store s'"
  by (simp add: wf_store_def)

lemma wf_store_emit [simp]: "wf_store (emit g s) = wf_store s"
  by (simp add: wf_store_def)

lemma wf_store_array_store [simp]: "wf_store (array_store a xs s) = wf_store s"
  by (simp add: wf_store_def)

lemma wf_store_array_push [simp]: "wf_store (array_push a x s) = wf_store s"
  by (simp add: wf_store_def)

lemma wf_store_start_playback [simp]: "wf_store (start_playback g u out s) = wf_store s"
  by (simp add: wf_store_def)

lemma wf_store_alloc: "wf_store s \<Longrightarrow> wf_store (snd (alloc xs s))"
  by (auto simp: wf_store_def less_Suc_eq)

lemma wf_store_getQueue: "wf_store s \<Longrightarrow> wf_store (snd (getQueue s g))"
  by (cases "queues s g") (simp_all add: getQueue_def wf_store_alloc)

lemma wf_store_addLinkToQueue:
  "wf_store s \<Longrightarrow> wf_store (snd (addLinkToQueue s g resolved user outcome))"
  by (auto simp: addLinkToQueue_def Let_def wf_store_set_queue split: sum.splits option.splits)

lemma wf_store_getNextQueueItem: "wf_store s \<Longrightarrow> wf_store (snd (getNextQueueItem s g))"
  by (cases "queues s g") (simp_all add: getNextQueueItem_def Let_def)

lemma wf_store_moveSong: "wf_store s \<Longrightarrow> wf_store (snd (moveSong s g f t))"
  by (cases "queues s g") (simp_all add: moveSong_def Let_def split_beta)

lemma wf_store_removeSong: "wf_store s \<Longrightarrow> wf_store (snd (removeSong s g i))"
  by (cases "queues s g") (simp_all add: removeSong_def Let_def split_beta)

lemma wf_store_run_op: "wf_store s \<Longrightarrow> wf_store (snd (run_op s g op))"
  by (cases op)
    (auto simp: split_beta clearQueue_def clearQueueExceptCurrent_def shuffleQueue_def Let_def
      wf_store_set_queue wf_store_getQueue wf_store_addLinkToQueue wf_store_getNextQueueItem
      wf_store_moveSong wf_store_removeSong split: option.splits)

subsection \<open>An operation leaves the other guilds alone\<close>

lemma map_option_heap_upd:
  "queues s g' \<noteq> Some a \<Longrightarrow>
   map_option ((heap s)(a := xs)) (queues s g') = map_option (heap s) (queues s g')"
  by (cases "queues s g'") auto

lemma wf_store_fresh: "wf_store s \<Longrightarrow> queues s g' \<noteq> Some (nxt s)"
  by (auto simp: wf_store_def)

lemma wf_store_distinct:
  "wf_store s \<Longrightarrow> queues s g = Some a \<Longrightarrow> g' \<noteq> g \<Longrightarrow> queues s g' \<noteq> Some a"
  by (auto simp: wf_store_def)

lemma same_elsewhere_refl [simp]: "same_elsewhere g s s"
  by (simp add: same_elsewhere_def)

lemma same_elsewhere_emit [simp]: "same_elsewhere g s (emit g' s') = same_elsewhere g s s'"
  by (simp add: same_elsewhere_def queue_of_def)

lemma same_elsewhere_start_playback [simp]:
  "same_elsewhere g s (start_playback g' u out s') = same_elsewhere g s s'"
  by (simp add: same_elsewhere_def queue_of_def)

lemma same_elsewhere_set_queue: "wf_store s \<Longrightarrow> same_elsewhere g s (set_queue g xs s)"
  by (simp add: same_elsewhere_def queue_of_def map_option_heap_upd wf_store_fresh)

lemma same_elsewhere_array_store:
  "wf_store s \<Longrightarrow> queues s g = Some a \<Longrightarrow> same_elsewhere g s (array_store a xs s)"
  by (simp add: same_elsewhere_def queue_of_def map_option_heap_upd wf_store_distinct)

lemma same_elsewhere_alloc: "wf_store s \<Longrightarrow> same_elsewhere g s (snd (alloc xs s))"
  by (simp add: same_elsewhere_def queue_of_def map_option_heap_upd wf_store_fresh)

lemma same_elsewhere_addLinkToQueue:
  assumes "wf_store s"
  shows "same_elsewhere g s (snd (addLinkToQueue s g resolved user outcome))"
proof -
  have 1: "same_elsewhere g s (array_push a x s)" if "queues s g = Some a" for a x
    unfolding array_push_def using assms that by (rule same_elsewhere_array_store)
  have 2: "same_elsewhere g s (array_push (nxt s) x (set_queue g [] s))" for x
    using assms by (simp add: same_elsewhere_def queue_of_def map_option_heap_upd wf_store_fresh)
  show ?thesis
    by (auto simp: addLinkToQueue_def Let_def 1 2 split: sum.splits option.splits)
qed

lemma same_elsewhere_getQueue: "wf_store s \<Longrightarrow> same_elsewhere g s (snd (getQueue s g))"
  by (cases "queues s g") (simp_all add: getQueue_def same_elsewhere_alloc)

lemma same_elsewhere_getNextQueueItem:
  "wf_store s \<Longrightarrow> same_elsewhere g s (snd (getNextQueueItem s g))"
  by (cases "queues s g") (simp_all add: getNextQueueItem_def Let_def same_elsewhere_array_store)

lemma same_elsewhere_moveSong: "wf_store s \<Longrightarrow> same_elsewhere g s (snd (moveSong s g f t))"
  by (cases "queues s g") (simp_all add: moveSong_def Let_def split_beta same_elsewhere_array_store)

lemma same_elsewhere_removeSong: "wf_store s \<Longrightarrow> same_elsewhere g s (snd (removeSong s g i))"
  by (cases "queues s g") (simp_all add: removeSong_def Let_def split_beta same_elsewhere_array_store)

lemma same_elsewhere_run_op:
  assumes "wf_store s"
  shows "same_elsewhere g s (snd (run_op s g op))"
  using assms
  by (cases op)
    (auto simp: split_beta clearQueue_def clearQueueExceptCurrent_def shuffleQueue_def Let_def
      same_elsewhere_set_queue same_elsewhere_getQueue same_elsewhere_addLinkToQueue
      same_elsewhere_getNextQueueItem same_elsewhere_moveSong same_elsewhere_removeSong
      split: option.splits)

subsection \<open>An operation sees only its own guild's queue\<close>

lemma queue_of_eq_cases:
  assumes "queue_of s1 g = queue_of s2 g"
  obtains "queues s1 g = None" "queues s2 g = None"
  | a1 a2 where "queues s1 g = Some a1" "queues s2 g = Some a2" "heap s1 a1 = heap s2 a2"
  using assms by (cases "queues s1 g"; cases "queues s2 g") (auto simp: queue_of_def)

lemma local_clearQueue: "queue_of (clearQueue s1 g) g = queue_of (clearQueue s2 g) g"
  by (simp add: clearQueue_def queue_of_def)

lemma local_getCurrentQueueItem:
  assumes "queue_of s1 g = queue_of s2 g"
  shows "getCurrentQueueItem s1 g = getCurrentQueueItem s2 g"
  using assms by (rule queue_of_eq_cases) (simp_all add: getCurrentQueueItem_def)

lemma local_getNextQueueItem:
  assumes "queue_of s1 g = queue_of s2 g"
  shows "fst (getNextQueueItem s1 g) = fst (getNextQueueItem s2 g) \<and>
    queue_of (snd (getNextQueueItem s1 g)) g = queue_of (snd (getNextQueueItem s2 g)) g"
  using assms by (rule queue_of_eq_cases) (simp_all add: getNextQueueItem_def queue_of_def Let_def)

lemma local_clearQueueExceptCurrent:
  assumes "queue_of s1 g = queue_of s2 g"
  shows "queue_of (clearQueueExceptCurrent s1 g) g = queue_of (clearQueueExceptCurrent s2 g) g"
  using assms
  by (rule queue_of_eq_cases) (simp_all add: clearQueueExceptCurrent_def queue_of_def Let_def)

lemma local_shuffleQueue:
  assumes "queue_of s1 g = queue_of s2 g"
  shows "queue_of (shuffleQueue s1 g rnd) g = queue_of (shuffleQueue s2 g rnd) g"
  using assms by (rule queue_of_eq_cases) (simp_all add: shuffleQueue_def queue_of_def Let_def)

lemma local_moveSong:
  assumes "queue_of s1 g = queue_of s2 g"
  shows "fst (moveSong s1 g f t) = fst (moveSong s2 g f t) \<and>
    queue_of (snd (moveSong s1 g f t)) g = queue_of (snd (moveSong s2 g f t)) g"
  using assms
  by (rule queue_of_eq_cases) (simp_all add: moveSong_def queue_of_def Let_def split_beta)

lemma local_removeSong:
  assumes "queue_of s1 g = queue_of s2 g"
  shows "fst (removeSong s1 g i) = fst (removeSong s2 g i) \<and>
    queue_of (snd (removeSong s1 g i)) g = queue_of (snd (removeSong s2 g i)) g"
  using assms
  by (rule queue_of_eq_cases) (simp_all add: removeSong_def queue_of_def Let_def split_beta)

lemma local_getQueue:
  assumes "queue_of s1 g = queue_of s2 g"
  shows "heap (snd (getQueue s1 g)) (fst (getQueue s1 g)) =
      heap (snd (getQueue s2 g)) (fst (getQueue s2 g)) \<and>
    queue_of (snd (getQueue s1 g)) g = queue_of (snd (getQueue s2 g)) g"
  using assms by (rule queue_of_eq_cases) (simp_all add: getQueue_def queue_of_def)

lemma local_addLinkToQueue:
  assumes "queue_of s1 g = queue_of s2 g"
  shows "fst (addLinkToQueue s1 g resolved user outcome) =
      fst (addLinkToQueue s2 g resolved user outcome) \<and>
    queue_of (snd (addLinkToQueue s1 g resolved user outcome)) g =
      queue_of (snd (addLinkToQueue s2 g resolved user outcome)) g"
  using assms
  by (rule queue_of_eq_cases)
    (auto simp: addLinkToQueue_def queue_of_def Let_def split: sum.splits option.splits)

lemma local_run_op:
  assumes "queue_of s1 g = queue_of s2 g"
  shows "fst (run_op s1 g op) = fst (run_op s2 g op) \<and>
    queue_of (snd (run_op s1 g op)) g = queue_of (snd (run_op s2 g op)) g"
  using assms local_clearQueue [of s1 g s2] local_getCurrentQueueItem [OF assms]
    local_getNextQueueItem [OF assms] local_clearQueueExceptCurrent [OF assms]
    local_shuffleQueue [OF assms] local_moveSong [OF assms] local_removeSong [OF assms]
    local_getQueue [OF assms] local_addLinkToQueue [OF assms]
  by (cases op) (simp_all add: split_beta)

lemma store_AB_simps [simp]:
  "queues store_AB ''T'' = Some 0" "queues store_AB ''U'' = Some 1"
  "heap store_AB 0 = [\<lparr>song = ''A'', requestedBy = userX\<rparr>]"
  "heap store_AB (Suc 0) = [\<lparr>song = ''B'', requestedBy = userY\<rparr>]"
proof -
  have b: "metadata resolvedB = Some ''B''" by (simp add: resolvedB_def)
  have n: "nxt store_A = 1" "queues store_A ''U'' = None"
    unfolding store_A_def
      addLinkToQueue_resolved [OF store_A_metadata, of new_QueueHandler "''T''" userX StartPlaybackFails]
    by (simp_all add: queue_list_def new_QueueHandler_def)
  note r = addLinkToQueue_resolved [OF b, of store_A "''U''" userY StartPlaybackOk]
  show "queues store_AB ''T'' = Some 0" "queues store_AB ''U'' = Some 1"
    "heap store_AB 0 = [\<lparr>song = ''A'', requestedBy = userX\<rparr>]"
    "heap store_AB (Suc 0) = [\<lparr>song = ''B'', requestedBy = userY\<rparr>]"
    unfolding store_AB_def r using n
    by (simp_all add: queue_list_def userY_def)
qed

lemma wf_store_store_AB [simp]: "wf_store store_AB"
  unfolding store_AB_def store_A_def
  by (intro wf_store_addLinkToQueue wf_store_new)

text \<open>
  Claim C9. In a well-formed store (the constructor gives one, every operation keeps it)
  an operation invoked for guild \<open>g\<close>, whichever of the nine it is, leaves the entry and
  the queue of every other guild \<open>g'\<close> as they were. And what the operation answers and
  what \<open>g\<close>'s queue is afterwards depend on \<open>g\<close>'s queue alone: two stores that agree on
  it, however they differ on the other guilds, give the same answer and the same queue.
\<close>

theorem tenant_isolation:
  "(wf_store s \<and> g' \<noteq> g \<longrightarrow>
      queues (snd (run_op s g op)) g' = queues s g' \<and>
      queue_of (snd (run_op s g op)) g' = queue_of s g' \<and>
      queue_list (snd (run_op s g op)) g' = queue_list s g') \<and>
   (wf_store s \<longrightarrow> wf_store (snd (run_op s g op))) \<and>
   (queue_of s g = queue_of s2 g \<longrightarrow>
      fst (run_op s g op) = fst (run_op s2 g op) \<and>
      queue_of (snd (run_op s g op)) g = queue_of (snd (run_op s2 g op)) g)"
proof -
  have ql: "queue_list t h = (case queue_of t h of None \<Rightarrow> [] | Some q \<Rightarrow> q)" for t :: "'a QueuedSong QueueHandler" and h
    by (simp add: queue_list_def queue_of_def split: option.splits)
  have "queues (snd (run_op s g op)) g' = queues s g' \<and>
      queue_of (snd (run_op s g op)) g' = queue_of s g'" if "wf_store s" "g' \<noteq> g"
    using same_elsewhere_run_op [OF that(1), of g op] that(2) by (simp add: same_elsewhere_def)
  then show ?thesis
    using wf_store_run_op [of s g op] local_run_op [of s g s2 op] by (simp add: ql)
qed

theorem tenant_isolation_witness:
  "wf_store store_AB \<and>
   queue_of store_AB ''T'' = queue_of store_A ''T'' \<and>
   queue_list (snd (run_op store_AB ''T'' (Advance :: (string, unit) operation))) ''U'' =
     [\<lparr>song = ''B'', requestedBy = userY\<rparr>] \<and>
   queue_list (snd (run_op store_AB ''T'' (Clear :: (string, unit) operation))) ''U'' =
     [\<lparr>song = ''B'', requestedBy = userY\<rparr>] \<and>
   wf_store (snd (run_op store_AB ''T'' (Advance :: (string, unit) operation))) \<and>
   fst (run_op store_AB ''T'' (List :: (string, unit) operation)) =
     fst (run_op store_A ''T'' (List :: (string, unit) operation)) \<and>
   queue_of (snd (run_op store_AB ''T'' (Advance :: (string, unit) operation))) ''T'' =
     queue_of (snd (run_op store_A ''T'' (Advance :: (string, unit) operation))) ''T''"
proof -
  have w: "wf_store store_AB \<and> ''U'' \<noteq> ''T''" by simp
  have e: "queue_of store_AB ''T'' = queue_of store_A ''T''" by (simp add: queue_of_def)
  have u: "queue_list store_AB ''U'' = [\<lparr>song = ''B'', requestedBy = userY\<rparr>]"
    by (simp add: queue_list_def)
  show ?thesis
    using tenant_isolation [of store_AB "''U''" "''T''" "Advance :: (string, unit) operation" store_A]
      tenant_isolation [of store_AB "''U''" "''T''" "Clear :: (string, unit) operation" store_A]
      tenant_isolation [of store_AB "''U''" "''T''" "List :: (string, unit) operation" store_A]
      w e u
    by simp
qed

section \<open>\<^verbatim>\<open>handleMessage\<close>: messages that are not commands\<close>

text \<open>
  Claim C10. A message whose content does not start with the prefix configured for its
  guild, or whose author is a bot, leaves the dispatcher as it was: no command is
  executed, no reply is sent, and the registry and the state the commands act on (the
  queues among it) are untouched.
\<close>

theorem handleMessage_ignores:
  assumes "\<not> startsWith (content message) (COMMAND_PREFIX cfg (guild message)) \<or> author_bot message"
  shows "handleMessage cfg h message = h"
  using assms by (auto simp: handleMessage_def Let_def)

theorem handleMessage_ignores_witness:
  "\<not> startsWith ''shuffle'' (COMMAND_PREFIX example_config (Some ''T2'')) \<and>
   handleMessage example_config example_handler
     \<lparr>content = ''shuffle'', author_bot = False, guild = Some ''T2'', member_voice_channel = False\<rparr>
     = example_handler \<and>
   startsWith ''!shuffle'' (COMMAND_PREFIX example_config (Some ''T2'')) \<and>
   handleMessage example_config example_handler
     \<lparr>content = ''!shuffle'', author_bot = True, guild = Some ''T2'', member_voice_channel = False\<rparr>
     = example_handler"
  using handleMessage_ignores [of "\<lparr>content = ''shuffle'', author_bot = False, guild = Some ''T2'',
      member_voice_channel = False\<rparr>" example_config example_handler]
    handleMessage_ignores [of "\<lparr>content = ''!shuffle'', author_bot = True, guild = Some ''T2'',
      member_voice_channel = False\<rparr>" example_config example_handler]
  by (simp add: startsWith_def example_config_def)

text \<open>For contrast: the same content with the prefix, from a user, runs the command.\<close>

lemma split_spaces_shuffle: "split_spaces ''shuffle'' = [''shuffle'']"
  by simp

lemma trim_shuffle: "trim ''shuffle'' = ''shuffle''"
  by (simp add: trim_def is_white_space_def)

lemma toLowerCase_shuffle: "toLowerCase ''shuffle'' = ''shuffle''"
  by (simp add: toLowerCase_def toLowerCase_char_def)

lemma handleMessage_executes_example:
  "executions (handleMessage example_config example_handler
     \<lparr>content = ''!shuffle'', author_bot = False, guild = Some ''T2'', member_voice_channel = False\<rparr>)
   = [(''shuffle'', [])]"
  by (simp add: handleMessage_def Let_def startsWith_def example_config_def example_handler_def
      new_CommandHandler_def shuffle_command_def shuffle_execute_def checkRequirements_def
      trim_shuffle toLowerCase_shuffle)

section \<open>\<^verbatim>\<open>shuffleQueue\<close>: shuffling behind the current item\<close>

subsection \<open>The product of doubles\<close>

lemma bit_length_upper: "n < 2 ^ bit_length n"
proof (induction n rule: bit_length.induct)
  case (1 n)
  show ?case
  proof (cases "n = 0")
    case True
    then show ?thesis by (simp add: bit_length.simps)
  next
    case False
    with 1 have "n div 2 < 2 ^ bit_length (n div 2)" by simp
    then have "n < 2 * 2 ^ bit_length (n div 2)" by linarith
    with False show ?thesis by (subst bit_length.simps) simp
  qed
qed

lemma bit_length_lower: "n \<noteq> 0 \<Longrightarrow> 2 ^ (bit_length n - 1) \<le> n"
proof (induction n rule: bit_length.induct)
  case (1 n)
  show ?case
  proof (cases "n div 2 = 0")
    case True
    with 1 have "n = 1" by linarith
    then show ?thesis by (simp add: bit_length.simps)
  next
    case False
    with 1 have ih: "2 ^ (bit_length (n div 2) - 1) \<le> n div 2" by simp
    from False have "bit_length (n div 2) \<noteq> 0" by (subst bit_length.simps) simp
    then have "(2::nat) ^ bit_length (n div 2) = 2 * 2 ^ (bit_length (n div 2) - 1)"
      by (cases "bit_length (n div 2)") simp_all
    with ih have "2 ^ bit_length (n div 2) \<le> n" by linarith
    with 1 show ?thesis by (subst bit_length.simps) simp
  qed
qed

text \<open>
  \<open>round_to_precision p\<close> rounds to the nearest number of \<open>p\<close> significant bits, to the
  even one of two that are equally near: the result is a multiple \<open>q * 2 ^ s\<close> of the
  unit in the last place, at most half a unit away from \<open>n\<close>, and \<open>q\<close> is even when it is
  exactly half a unit away.
\<close>

lemma round_to_precision_nearest:
  assumes "p < bit_length n" "0 < p"
  shows "\<exists>q. round_to_precision p n = q * 2 ^ (bit_length n - p) \<and> q \<le> 2 ^ p \<and>
    (2 * q - 1) * 2 ^ (bit_length n - p) \<le> 2 * n \<and>
    2 * n \<le> (2 * q + 1) * 2 ^ (bit_length n - p) \<and>
    (2 * n = (2 * q - 1) * 2 ^ (bit_length n - p) \<or>
     2 * n = (2 * q + 1) * 2 ^ (bit_length n - p) \<longrightarrow> even q)"
proof -
  define s where "s = bit_length n - p"
  define S :: nat where "S = 2 ^ s"
  define q0 where "q0 = n div S"
  define rest where "rest = n mod S"
  define half :: nat where "half = 2 ^ (s - 1)"
  from assms have s: "0 < s" "bit_length n = p + s" by (simp_all add: s_def)
  have S: "S = 2 * half" "0 < S" using s(1) by (cases s; simp add: S_def half_def)+
  have n: "n = q0 * S + rest" by (simp add: q0_def rest_def)
  have rest: "rest < S" using S by (simp add: rest_def)
  have "n < 2 ^ bit_length n" by (rule bit_length_upper)
  then have "n < 2 ^ p * S" by (simp add: s S_def power_add)
  then have q0: "q0 < 2 ^ p" using S by (simp add: q0_def div_less_iff_less_mult)
  have "n \<noteq> 0"
  proof
    assume "n = 0"
    then have "bit_length n = 0" by (simp add: bit_length.simps)
    with assms show False by simp
  qed
  then have "2 ^ (bit_length n - 1) \<le> n" by (rule bit_length_lower)
  moreover have "bit_length n - 1 = (p - 1) + s" using s assms by simp
  ultimately have "2 ^ (p - 1) * S \<le> n" by (simp add: S_def power_add)
  then have "2 ^ (p - 1) \<le> q0" using S by (simp add: q0_def less_eq_div_iff_mult_less_eq)
  then have q1: "1 \<le> q0" using one_le_power [of "2::nat" "p - 1"] by linarith
  define up where "up \<longleftrightarrow> rest > half \<or> (rest = half \<and> odd q0)"
  have r: "round_to_precision p n = (if up then q0 + 1 else q0) * S"
    using assms by (simp add: round_to_precision_def Let_def s_def S_def q0_def rest_def half_def up_def)
  have d1: "(2 * q0 + 1) * S = 2 * (q0 * S) + S" by (simp add: algebra_simps)
  have d2: "(2 * q0 + 3) * S = 2 * (q0 * S) + 3 * S" by (simp add: algebra_simps)
  have d3: "(2 * q0 - 1) * S + S = 2 * (q0 * S)"
  proof -
    from q1 have "2 * q0 - 1 + 1 = 2 * q0" by simp
    then have "(2 * q0 - 1 + 1) * S = 2 * q0 * S" by (simp only:)
    then show ?thesis by (simp only: add_mult_distrib mult_1 mult.assoc)
  qed
  show ?thesis
  proof (cases up)
    case True
    then have h: "half \<le> rest" "rest = half \<longrightarrow> odd q0" by (auto simp: up_def)
    have "round_to_precision p n = (q0 + 1) * 2 ^ (bit_length n - p)"
      using True r by (simp add: S_def s_def)
    moreover have "q0 + 1 \<le> 2 ^ p" using q0 by simp
    moreover have "(2 * (q0 + 1) - 1) * S \<le> 2 * n"
      using h S n by (simp add: d1)
    moreover have "2 * n \<le> (2 * (q0 + 1) + 1) * S"
      using rest n by (simp add: d2)
    moreover have "2 * n \<noteq> (2 * (q0 + 1) + 1) * S" using rest n by (simp add: d2)
    moreover have "2 * n = (2 * (q0 + 1) - 1) * S \<longrightarrow> even (q0 + 1)"
      using h S n by (auto simp: d1)
    ultimately show ?thesis unfolding S_def s_def by blast
  next
    case False
    then have h: "rest \<le> half" "rest = half \<longrightarrow> even q0" by (auto simp: up_def)
    have "round_to_precision p n = q0 * 2 ^ (bit_length n - p)"
      using False r by (simp add: S_def s_def)
    moreover have "q0 \<le> 2 ^ p" using q0 by simp
    moreover have "(2 * q0 - 1) * S \<le> 2 * n" using n d3 by linarith
    moreover have "2 * n \<le> (2 * q0 + 1) * S" using h S n by (simp add: d1)
    moreover have "2 * n \<noteq> (2 * q0 - 1) * S" using n d3 S by linarith
    moreover have "2 * n = (2 * q0 + 1) * S \<longrightarrow> even q0" using h S n by (auto simp: d1)
    ultimately show ?thesis unfolding S_def s_def by blast
  qed
qed




lemma double_value_range:
  assumes "is_random_value r"
  shows "0 \<le> double_value r \<and> double_value r < 1"
proof -
  from assms have "real (significand r) < real ((2::nat) ^ scale r)"
    unfolding is_random_value_def by (simp only: of_nat_less_iff)
  then show ?thesis by (simp add: double_value_def)
qed


lemma random_index_seven_tenths: "random_index (Double 6305039478318694 53) 9 = 7"
proof -
  have "bit_length 63050394783186940 = 56" by (simp add: bit_length.simps)
  then show ?thesis
    by (simp add: random_index_def round_to_double_def round_to_precision_def Let_def)
qed

lemma random_index_five_sixths: "random_index (Double 3752999689475413 52) 5 = 5"
proof -
  have "bit_length 22517998136852478 = 55" by (simp add: bit_length.simps)
  then show ?thesis
    by (simp add: random_index_def round_to_double_def round_to_precision_def Let_def)
qed


subsection \<open>The loop is the Fisher-Yates shuffle on the drawn indices\<close>

lemma length_swap [simp]: "length (swap i j xs) = length xs"
  by (simp add: swap_def)





lemma length_draws [simp]: "length (draws rnd k i) = i"
  by (induction i arbitrary: k) simp_all



lemma length_fisher_yates [simp]: "length (fisher_yates js xs) = length xs"
  by (induction js arbitrary: xs) simp_all





subsection \<open>Every permutation comes from exactly one sequence of draws\<close>







subsection \<open>Chances on the doubles of a 53-bit generator\<close>

lemma finite_random_grid: "finite random_grid"
  by (simp add: random_grid_def)

lemma card_random_grid: "card random_grid = 2 ^ 53"
proof -
  have "inj_on (\<lambda>m. Double m 53) {..<2 ^ 53}" by (rule inj_onI) simp
  then have "card random_grid = card {..<(2::nat) ^ 53}"
    unfolding random_grid_def by (rule card_image)
  then show ?thesis by simp
qed


lemma chance_one_draw_not_third: "chance random_grid P \<noteq> 1 / 3"
proof
  define c where "c = card {x \<in> random_grid. P x}"
  assume "chance random_grid P = 1 / 3"
  then have "real c / real ((2::nat) ^ 53) = 1 / 3"
    by (simp only: chance_def c_def card_random_grid)
  then have "real (3 * c) = real ((2::nat) ^ 53)"
    by (simp add: field_simps)
  then have "3 * c = (2::nat) ^ 53" by (simp only: of_nat_eq_iff)
  moreover have "(2::nat) ^ 53 mod 3 = 2" by simp
  moreover have "(3 * c) mod 3 = 0" by simp
  ultimately show False by (metis zero_neq_numeral)
qed

subsection \<open>The operation\<close>




lemma shuffle_store_simps [simp]:
  "queues shuffle_store ''T'' = Some 0" "heap shuffle_store 0 = [10, 20, 30, 40]"
  "emitted shuffle_store = []"
  by (simp_all add: shuffle_store_def new_QueueHandler_def)





end
